theory Spec2Isabelle
  imports Complex_Main
begin

section \<open>The dashboard script \<open>main.py\<close>\<close>

text \<open>
  The script is one top-to-bottom pass: it reads seven sidebar controls, generates a
  synthetic dataset with numpy, draws one of four charts on a matplotlib axes, applies
  the common axes decoration, and shows four summary metrics and a five-row preview.

  Numbers: numpy's \<open>float64\<close> arrays are modelled as lists of real numbers, so
  arithmetic here is exact; IEEE rounding, infinities and NaN are outside the model.
  The calls into numpy and matplotlib are modelled by what their documentation says
  they do with the arguments the script passes.
\<close>

subsection \<open>Errors and values\<close>

datatype py_error = ValueError | IndexError

type_synonym ndarray = "real list"

datatype pyval =
    PStr string
  | PNum real
  | PInt int
  | PBool bool
  | PArr ndarray
  | PDict "(string \<times> pyval) list"

type_synonym kwargs = "(string \<times> pyval) list"

subsection \<open>Sidebar controls (lines 18 to 37)\<close>

text \<open>
  \<open>graph_type\<close> and \<open>color_palette\<close> are the strings the two select boxes return;
  \<open>num_points\<close> is the integer slider (10 to 500, never negative) and \<open>noise_level\<close>
  the float slider (0.0 to 1.0).
\<close>

record params =
  graph_type :: string
  color_palette :: string
  show_grid :: bool
  show_legend :: bool
  show_annotations :: bool
  num_points :: nat
  noise_level :: real

definition graph_type_options :: "string list" where
  "graph_type_options = [''Line Plot'', ''Scatter Plot'', ''Bar Chart'', ''Area Chart'']"

definition color_palette_options :: "string list" where
  "color_palette_options = [''deep'', ''muted'', ''bright'', ''pastel'', ''dark'', ''colorblind'']"

text \<open>The values every control has before the user touches it.\<close>

definition default_params :: params where
  "default_params =
     \<lparr>graph_type = graph_type_options ! 0,
      color_palette = color_palette_options ! 0,
      show_grid = True, show_legend = True, show_annotations = True,
      num_points = 100, noise_level = 0.1\<rparr>"

subsection \<open>numpy\<close>

text \<open>
  \<open>np.linspace(start, stop, num)\<close> with the default \<open>endpoint=True\<close>: the indices
  \<open>0 .. num-1\<close> are scaled by \<open>step = (stop - start) / (num - 1)\<close> and shifted by
  \<open>start\<close>, and for \<open>num > 1\<close> the last entry is overwritten with \<open>stop\<close>. With
  \<open>num = 1\<close> there is no step and the single entry is \<open>start\<close>.
\<close>

definition linspace :: "real \<Rightarrow> real \<Rightarrow> nat \<Rightarrow> ndarray" where
  "linspace start stop num =
     (let dv = num - 1;
          delta = stop - start;
          y = map real [0..<num];
          y = (if 0 < dv
               then (let step = delta / real dv
                     in if step = 0 then map (\<lambda>v. v / real dv * delta) y
                        else map (\<lambda>v. v * step) y)
               else map (\<lambda>v. v * delta) y);
          y = map (\<lambda>v. v + start) y
      in if 1 < num then y[num - 1 := stop] else y)"

text \<open>
  The global random generator. It is modelled by what it is going to hand out: a stream
  of standard-normal variates and a stream of uniform integers, each with the position
  of the next unread entry. Seeding the generator fixes both streams.
\<close>

record random_state =
  gauss :: "nat \<Rightarrow> real"
  gauss_pos :: nat
  ints :: "nat \<Rightarrow> nat"
  ints_pos :: nat

text \<open>
  \<open>np.random.normal(loc, scale, size)\<close> returns \<open>loc + scale * z\<close> for \<open>size\<close> fresh
  standard-normal variates \<open>z\<close>, and raises \<open>ValueError\<close> for a negative scale.
\<close>

definition random_normal ::
  "real \<Rightarrow> real \<Rightarrow> nat \<Rightarrow> random_state \<Rightarrow> py_error + (ndarray \<times> random_state)" where
  "random_normal loc scale n st =
     (if scale < 0 then Inl ValueError
      else Inr (map (\<lambda>i. loc + scale * gauss st (gauss_pos st + i)) [0..<n],
                st\<lparr>gauss_pos := gauss_pos st + n\<rparr>))"

text \<open>
  \<open>np.random.choice(a, size=size)\<close> picks \<open>size\<close> entries of \<open>a\<close> uniformly, and
  raises \<open>ValueError\<close> when \<open>a\<close> is empty and samples are asked for.
\<close>

definition random_choice ::
  "'a list \<Rightarrow> nat \<Rightarrow> random_state \<Rightarrow> py_error + ('a list \<times> random_state)" where
  "random_choice a n st =
     (if a = [] \<and> 0 < n then Inl ValueError
      else Inr (map (\<lambda>i. a ! (ints st (ints_pos st + i) mod length a)) [0..<n],
                st\<lparr>ints_pos := ints_pos st + n\<rparr>))"

text \<open>Elementwise sum of two arrays of one shape, and of an array and a scalar.\<close>

definition arr_add :: "ndarray \<Rightarrow> ndarray \<Rightarrow> ndarray" where
  "arr_add a b = map2 (+) a b"

definition arr_add_scalar :: "ndarray \<Rightarrow> real \<Rightarrow> ndarray" where
  "arr_add_scalar a c = map (\<lambda>v. v + c) a"

text \<open>
  \<open>np.max\<close>, \<open>np.min\<close> and \<open>np.argmax\<close> raise \<open>ValueError\<close> on an empty array;
  \<open>np.argmax\<close> returns the first index of the maximum.
\<close>

definition np_max :: "ndarray \<Rightarrow> py_error + real" where
  "np_max a = (case a of [] \<Rightarrow> Inl ValueError | v # vs \<Rightarrow> Inr (fold max vs v))"

definition np_min :: "ndarray \<Rightarrow> py_error + real" where
  "np_min a = (case a of [] \<Rightarrow> Inl ValueError | v # vs \<Rightarrow> Inr (fold min vs v))"

fun argmax_from :: "ndarray \<Rightarrow> nat \<Rightarrow> nat \<Rightarrow> real \<Rightarrow> nat" where
  "argmax_from [] i best bv = best"
| "argmax_from (v # vs) i best bv =
     (if bv < v then argmax_from vs (Suc i) i v else argmax_from vs (Suc i) best bv)"

definition np_argmax :: "ndarray \<Rightarrow> py_error + nat" where
  "np_argmax a = (case a of [] \<Rightarrow> Inl ValueError | v # vs \<Rightarrow> Inr (argmax_from vs 1 0 v))"

text \<open>Indexing \<open>a[i]\<close> with a non-negative index, and the slices \<open>a[::k]\<close> (for a
  positive step \<open>k\<close>) and \<open>a[:n]\<close>.\<close>

definition getitem :: "'a list \<Rightarrow> nat \<Rightarrow> py_error + 'a" where
  "getitem a i = (if i < length a then Inr (a ! i) else Inl IndexError)"

fun slice_step :: "'a list \<Rightarrow> nat \<Rightarrow> 'a list" where
  "slice_step [] k = []"
| "slice_step (v # vs) k = v # slice_step (drop (k - 1) vs) k"

definition slice_upto :: "'a list \<Rightarrow> nat \<Rightarrow> 'a list" where
  "slice_upto a n = take n a"

subsection \<open>Dataset generation (lines 40 to 43)\<close>

text \<open>The four arrays \<open>x\<close>, \<open>y1\<close>, \<open>y2\<close> and \<open>categories\<close> of the script.\<close>

record dataset =
  x_arr :: ndarray
  y1_arr :: ndarray
  y2_arr :: ndarray
  categories :: "string list"

definition generate :: "params \<Rightarrow> random_state \<Rightarrow> py_error + (dataset \<times> random_state)" where
  "generate p st =
     (let xs = linspace 0 10 (num_points p) in
      case random_normal 0 (noise_level p) (num_points p) st of
        Inl e \<Rightarrow> Inl e
      | Inr (n1, st1) \<Rightarrow>
          (case random_normal 0 (noise_level p) (num_points p) st1 of
             Inl e \<Rightarrow> Inl e
           | Inr (n2, st2) \<Rightarrow>
               (case random_choice [''A'', ''B'', ''C''] (num_points p) st2 of
                  Inl e \<Rightarrow> Inl e
                | Inr (cs, st3) \<Rightarrow>
                    Inr (\<lparr>x_arr = xs,
                          y1_arr = arr_add (map sin xs) n1,
                          y2_arr = arr_add (map cos xs) n2,
                          categories = cs\<rparr>, st3))))"

subsection \<open>Python's fixed-point formatting\<close>

text \<open>
  \<open>format(v, '.2f')\<close> and \<open>format(v, ',.1f')\<close>: the value is rounded to the given number
  of decimals, ties to even, and written with a minus sign for a negative value, the
  integer part (in groups of three separated by commas when \<open>,\<close> is given), a point, and
  the decimals padded with zeros.
\<close>

record format_spec =
  grouping :: bool
  precision :: nat

definition round_half_even :: "real \<Rightarrow> int" where
  "round_half_even v =
     (let f = \<lfloor>v\<rfloor>; r = v - of_int f
      in if r < 1 / 2 then f
         else if 1 / 2 < r then f + 1
         else if even f then f else f + 1)"

definition digit_char :: "nat \<Rightarrow> char" where
  "digit_char d = ''0123456789'' ! d"

fun digits :: "nat \<Rightarrow> string" where
  "digits n = (if n < 10 then [digit_char n] else digits (n div 10) @ [digit_char (n mod 10)])"

definition zero_pad :: "nat \<Rightarrow> string \<Rightarrow> string" where
  "zero_pad w s = replicate (w - length s) (CHR ''0'') @ s"

fun group3 :: "string \<Rightarrow> string" where
  "group3 (a # b # c # d # r) = a # b # c # CHR '','' # group3 (d # r)"
| "group3 s = s"

definition group_thousands :: "string \<Rightarrow> string" where
  "group_thousands s = rev (group3 (rev s))"

definition format_float :: "format_spec \<Rightarrow> real \<Rightarrow> string" where
  "format_float spec v =
     (let q = nat (round_half_even (\<bar>v\<bar> * 10 ^ precision spec));
          ip = digits (q div 10 ^ precision spec);
          fp = zero_pad (precision spec) (digits (q mod 10 ^ precision spec))
      in (if v < 0 then ''-'' else [])
         @ (if grouping spec then group_thousands ip else ip)
         @ (if precision spec = 0 then [] else ''.'' @ fp))"

text \<open>
  Reading a displayed number back, to say what "formatted to two decimal places" means
  without the formatter: \<open>two_decimals s v\<close> holds when \<open>s\<close> is a minus sign exactly for
  negative \<open>v\<close>, then one or more decimal digits, a point and exactly two decimal digits,
  and the number written differs from \<open>\<bar>v\<bar>\<close> by at most half a hundredth.
\<close>

definition is_digit :: "char \<Rightarrow> bool" where
  "is_digit c \<longleftrightarrow> c \<in> set ''0123456789''"

definition digit_val :: "char \<Rightarrow> nat" where
  "digit_val c = of_char c - 48"

definition nat_of_digits :: "string \<Rightarrow> nat" where
  "nat_of_digits s = foldl (\<lambda>n c. 10 * n + digit_val c) 0 s"

definition two_decimals :: "string \<Rightarrow> real \<Rightarrow> bool" where
  "two_decimals s v \<longleftrightarrow>
     (let t = (if v < 0 then drop 1 s else s);
          n = length t;
          ip = take (n - 3) t;
          fp = drop (n - 2) t
      in (if v < 0 then take 1 s = ''-'' else True) \<and>
         4 \<le> n \<and> t ! (n - 3) = CHR ''.'' \<and>
         list_all is_digit ip \<and> list_all is_digit fp \<and>
         \<bar>real (nat_of_digits ip) + real (nat_of_digits fp) / 100 - \<bar>v\<bar>\<bar> \<le> 1 / 200)"

subsection \<open>matplotlib and seaborn\<close>

text \<open>
  What is drawn on the axes. Each plotting call adds one artist that keeps the data
  arrays and the keyword arguments it was given:
  \<open>ax.plot\<close> a \<open>Line2D\<close>, \<open>ax.scatter\<close> a \<open>PathCollection\<close>, \<open>ax.bar\<close> a
  \<open>BarContainer\<close> with one bar per position, \<open>ax.fill_between\<close> a \<open>PolyCollection\<close>.
\<close>

datatype artist =
    Line2D ndarray ndarray kwargs
  | PathCollection ndarray ndarray kwargs
  | BarContainer ndarray ndarray kwargs
  | PolyCollection ndarray ndarray kwargs

record annotation =
  ann_text :: string
  ann_xy :: "real \<times> real"
  ann_xytext :: "real \<times> real"
  ann_arrowprops :: kwargs

datatype formatter = ScalarFormatter | StrMethodFormatter format_spec

record axes =
  artists :: "artist list"
  annotations :: "annotation list"
  title :: string
  title_pad :: real
  xlabel :: string
  ylabel :: string
  grid_on :: bool
  grid_props :: kwargs
  axisbelow :: bool
  y_formatter :: formatter
  legend :: "kwargs option"

record figure =
  fig_axes :: axes
  fig_colorbar :: "(artist \<times> string) option"

text \<open>
  \<open>sns.set_style\<close>, \<open>sns.set_palette\<close> and the three \<open>plt.rcParams\<close> assignments set
  the drawing defaults; the style \<open>whitegrid\<close> switches the default grid on, \<open>white\<close>
  switches it off.
\<close>

record rc_params =
  rc_style :: string
  rc_palette :: string
  rc_font_size :: nat
  rc_labelsize :: nat
  rc_titlesize :: nat

definition set_style :: "params \<Rightarrow> rc_params" where
  "set_style p =
     \<lparr>rc_style = (if show_grid p then ''whitegrid'' else ''white''),
      rc_palette = color_palette p,
      rc_font_size = 12, rc_labelsize = 14, rc_titlesize = 16\<rparr>"

text \<open>\<open>plt.subplots\<close>: an empty axes that takes its grid default from the style.\<close>

definition subplots :: "rc_params \<Rightarrow> axes" where
  "subplots rc =
     \<lparr>artists = [], annotations = [], title = [], title_pad = 6,
      xlabel = [], ylabel = [],
      grid_on = (rc_style rc = ''whitegrid''), grid_props = [],
      axisbelow = False, y_formatter = ScalarFormatter, legend = None\<rparr>"

definition add_artist :: "artist \<Rightarrow> axes \<Rightarrow> axes" where
  "add_artist a ax = ax\<lparr>artists := artists ax @ [a]\<rparr>"

definition ax_plot :: "ndarray \<Rightarrow> ndarray \<Rightarrow> kwargs \<Rightarrow> axes \<Rightarrow> axes" where
  "ax_plot xs ys kw ax = add_artist (Line2D xs ys kw) ax"

definition ax_scatter :: "ndarray \<Rightarrow> ndarray \<Rightarrow> kwargs \<Rightarrow> axes \<Rightarrow> artist \<times> axes" where
  "ax_scatter xs ys kw ax = (PathCollection xs ys kw, add_artist (PathCollection xs ys kw) ax)"

definition ax_bar :: "ndarray \<Rightarrow> ndarray \<Rightarrow> kwargs \<Rightarrow> axes \<Rightarrow> axes" where
  "ax_bar xs hs kw ax = add_artist (BarContainer xs hs kw) ax"

definition ax_fill_between :: "ndarray \<Rightarrow> ndarray \<Rightarrow> kwargs \<Rightarrow> axes \<Rightarrow> axes" where
  "ax_fill_between xs ys kw ax = add_artist (PolyCollection xs ys kw) ax"

definition ax_annotate ::
  "string \<Rightarrow> real \<times> real \<Rightarrow> real \<times> real \<Rightarrow> kwargs \<Rightarrow> axes \<Rightarrow> axes" where
  "ax_annotate s xy xytext arrow ax =
     ax\<lparr>annotations := annotations ax @
          [\<lparr>ann_text = s, ann_xy = xy, ann_xytext = xytext, ann_arrowprops = arrow\<rparr>]\<rparr>"

text \<open>
  \<open>Axes.grid(visible, **kwargs)\<close>. The matplotlib documentation of \<open>visible\<close>:
  "Whether to show the grid lines. If any kwargs are supplied, it is assumed you want
  the grid on and visible will be set to True. If visible is None and there are no
  kwargs, this toggles the visibility of the lines." The keyword arguments become the
  line properties of the grid.
\<close>

definition ax_grid :: "bool option \<Rightarrow> kwargs \<Rightarrow> axes \<Rightarrow> axes" where
  "ax_grid visible kw ax =
     (let visible = (if kw \<noteq> [] then Some True else visible)
      in ax\<lparr>grid_on := (case visible of None \<Rightarrow> \<not> grid_on ax | Some b \<Rightarrow> b),
            grid_props := kw\<rparr>)"

text \<open>The number of bars an artist draws, where they sit and how wide they are.\<close>

fun bar_positions :: "artist \<Rightarrow> ndarray" where
  "bar_positions (BarContainer xs hs kw) = xs"
| "bar_positions _ = []"

fun bar_width :: "artist \<Rightarrow> pyval option" where
  "bar_width (BarContainer xs hs kw) = map_of kw ''width''"
| "bar_width _ = None"

text \<open>
  The label a formatter gives to the tick at value \<open>v\<close>. \<open>StrMethodFormatter\<close> formats
  the value with its format string and then, under the default
  \<open>axes.unicode_minus = True\<close>, replaces every hyphen by the minus sign U+2212 (three
  bytes in UTF-8).
\<close>

definition fix_minus :: "string \<Rightarrow> string" where
  "fix_minus s =
     concat (map (\<lambda>c. if c = CHR ''-'' then [CHR 0xE2, CHR 0x88, CHR 0x92] else [c]) s)"

fun tick_label :: "formatter \<Rightarrow> real \<Rightarrow> string option" where
  "tick_label (StrMethodFormatter spec) v = Some (fix_minus (format_float spec v))"
| "tick_label ScalarFormatter v = None"

subsection \<open>Drawing (lines 46 to 86)\<close>

text \<open>
  The \<open>if\<close>/\<open>elif\<close> chain over \<open>graph_type\<close> (lines 56 to 70). It returns the axes and
  the value of the variable \<open>scatter\<close>, which only the second branch assigns.
\<close>

definition plot_selected ::
  "params \<Rightarrow> dataset \<Rightarrow> axes \<Rightarrow> py_error + (axes \<times> artist option)" where
  "plot_selected p d ax =
     (if graph_type p = ''Line Plot'' then
        Inr (ax_plot (x_arr d) (y2_arr d)
               [(''label'', PStr ''Cosine Wave''), (''linewidth'', PNum 2.5),
                (''linestyle'', PStr ''--'')]
            (ax_plot (x_arr d) (y1_arr d)
               [(''label'', PStr ''Sine Wave''), (''linewidth'', PNum 2.5),
                (''marker'', PStr ''o''), (''markevery'', PInt 5), (''markersize'', PInt 6)]
             ax), None)
      else if graph_type p = ''Scatter Plot'' then
        (case ax_scatter (x_arr d) (y1_arr d)
                [(''c'', PArr (y2_arr d)), (''cmap'', PStr ''viridis''), (''s'', PInt 100),
                 (''alpha'', PNum 0.7), (''label'', PStr ''Data Points'')] ax of
           (scatter, ax1) \<Rightarrow>
             if show_annotations p then
               (case np_argmax (y1_arr d) of Inl e \<Rightarrow> Inl e | Inr i \<Rightarrow>
                (case getitem (x_arr d) i of Inl e \<Rightarrow> Inl e | Inr xi \<Rightarrow>
                (case np_max (y1_arr d) of Inl e \<Rightarrow> Inl e | Inr m \<Rightarrow>
                   Inr (ax_annotate ''Peak Value'' (xi, m) (xi + 1, m + 0.5)
                          [(''facecolor'', PStr ''black''), (''shrink'', PNum 0.05)] ax1,
                        Some scatter))))
             else Inr (ax1, Some scatter))
      else if graph_type p = ''Bar Chart'' then
        Inr (ax_bar (arr_add_scalar (slice_step (x_arr d) 10) 0.5) (slice_step (y2_arr d) 10)
               [(''width'', PNum 0.5), (''alpha'', PNum 0.7), (''label'', PStr ''Cosine Values'')]
            (ax_bar (slice_step (x_arr d) 10) (slice_step (y1_arr d) 10)
               [(''width'', PNum 0.5), (''alpha'', PNum 0.7), (''label'', PStr ''Sine Values'')]
             ax), None)
      else if graph_type p = ''Area Chart'' then
        Inr (ax_fill_between (x_arr d) (y2_arr d)
               [(''alpha'', PNum 0.4), (''label'', PStr ''Cosine Wave'')]
            (ax_fill_between (x_arr d) (y1_arr d)
               [(''alpha'', PNum 0.4), (''label'', PStr ''Sine Wave'')]
             ax), None)
      else Inr (ax, None))"

text \<open>The decoration applied to every chart (lines 73 to 81).\<close>

definition customize :: "params \<Rightarrow> axes \<Rightarrow> axes" where
  "customize p ax =
     (let ax = ax\<lparr>title := ''Beautiful '' @ graph_type p, title_pad := 20\<rparr>;
          ax = ax\<lparr>xlabel := ''X Axis''\<rparr>;
          ax = ax\<lparr>ylabel := ''Y Axis''\<rparr>;
          ax = ax_grid (Some (show_grid p)) [(''linestyle'', PStr ''--''), (''alpha'', PNum 0.6)] ax;
          ax = ax\<lparr>axisbelow := True\<rparr>;
          ax = ax\<lparr>y_formatter := StrMethodFormatter \<lparr>grouping = True, precision = 1\<rparr>\<rparr>
      in if show_legend p
         then ax\<lparr>legend := Some [(''loc'', PStr ''upper right''), (''framealpha'', PInt 1)]\<rparr>
         else ax)"

text \<open>The colour bar of lines 84 to 86, drawn for the scatter artist when there is one.\<close>

definition add_colorbar :: "params \<Rightarrow> artist option \<Rightarrow> (artist \<times> string) option" where
  "add_colorbar p scatter =
     (if graph_type p = ''Scatter Plot'' \<and> scatter \<noteq> None
      then Some (the scatter, ''Cosine Values'') else None)"

definition render :: "params \<Rightarrow> dataset \<Rightarrow> py_error + figure" where
  "render p d =
     (case plot_selected p d (subplots (set_style p)) of
        Inl e \<Rightarrow> Inl e
      | Inr (ax, scatter) \<Rightarrow>
          Inr \<lparr>fig_axes = customize p ax, fig_colorbar = add_colorbar p scatter\<rparr>)"

subsection \<open>Data summary (lines 92 to 106)\<close>

record summary =
  metrics :: "(string \<times> string) list"
  preview :: "(string \<times> ndarray) list"

definition fmt_2f :: "real \<Rightarrow> string" where
  "fmt_2f v = format_float \<lparr>grouping = False, precision = 2\<rparr> v"

definition data_summary :: "dataset \<Rightarrow> py_error + summary" where
  "data_summary d =
     (case np_max (y1_arr d) of Inl e \<Rightarrow> Inl e | Inr max1 \<Rightarrow>
      (case np_min (y1_arr d) of Inl e \<Rightarrow> Inl e | Inr min1 \<Rightarrow>
      (case np_max (y2_arr d) of Inl e \<Rightarrow> Inl e | Inr max2 \<Rightarrow>
      (case np_min (y2_arr d) of Inl e \<Rightarrow> Inl e | Inr min2 \<Rightarrow>
         Inr \<lparr>metrics =
                [(''Max Sine Value'', fmt_2f max1),
                 (''Min Sine Value'', fmt_2f min1),
                 (''Max Cosine Value'', fmt_2f max2),
                 (''Min Cosine Value'', fmt_2f min2)],
              preview =
                [(''X Values'', slice_upto (x_arr d) 5),
                 (''Sine Values'', slice_upto (y1_arr d) 5),
                 (''Cosine Values'', slice_upto (y2_arr d) 5)]\<rparr>))))"

subsection \<open>One run of the script\<close>

record page =
  page_data :: dataset
  page_figure :: figure
  page_summary :: summary

definition run_script :: "params \<Rightarrow> random_state \<Rightarrow> py_error + page" where
  "run_script p st =
     (case generate p st of
        Inl e \<Rightarrow> Inl e
      | Inr (d, st') \<Rightarrow>
          (case render p d of
             Inl e \<Rightarrow> Inl e
           | Inr fig \<Rightarrow>
               (case data_summary d of
                  Inl e \<Rightarrow> Inl e
                | Inr s \<Rightarrow> Inr \<lparr>page_data = d, page_figure = fig, page_summary = s\<rparr>)))"

text \<open>One seeded state of the generator, used for concrete runs.\<close>

definition seed0 :: random_state where
  "seed0 = \<lparr>gauss = (\<lambda>i. if even i then 1 / 2 else - 1 / 4), gauss_pos = 0,
            ints = (\<lambda>i. i), ints_pos = 0\<rparr>"

text \<open>
  What the two sliders of lines 36 and 37 can return: an integer from 10 to 500 and a
  float from 0.0 to 1.0.
\<close>

definition slider_ranges :: "params \<Rightarrow> bool" where
  "slider_ranges p \<longleftrightarrow>
     10 \<le> num_points p \<and> num_points p \<le> 500 \<and> 0 \<le> noise_level p \<and> noise_level p \<le> 1"

section \<open>Properties of the library functions and of the stages\<close>

lemma length_linspace: "length (linspace a b n) = n"
  by (simp add: linspace_def Let_def)

lemma linspace_nth:
  assumes "1 < n" "i < n"
  shows "linspace 0 10 n ! i = real i * 10 / real (n - 1)"
proof (cases "i = n - 1")
  case True
  have "linspace 0 10 n ! i = 10"
    using assms True by (simp add: linspace_def Let_def)
  moreover have "real (n - 1) \<noteq> 0"
    using assms by simp
  then have "real (n - 1) * 10 / real (n - 1) = 10"
    by (rule nonzero_mult_div_cancel_left)
  ultimately show ?thesis using True by (simp only:)
next
  case False
  with assms show ?thesis by (simp add: linspace_def Let_def)
qed

lemma linspace_strict:
  assumes "1 < n"
  shows "sorted_wrt (<) (linspace 0 10 n)"
proof -
  have "linspace 0 10 n ! i < linspace 0 10 n ! j" if "i < j" "j < n" for i j
  proof -
    have "real i * 10 / real (n - 1) < real j * 10 / real (n - 1)"
      using that assms by (simp add: divide_strict_right_mono)
    then show ?thesis using that assms by (simp add: linspace_nth)
  qed
  then show ?thesis by (simp add: sorted_wrt_iff_nth_less length_linspace)
qed

lemma linspace_first: "0 < n \<Longrightarrow> linspace 0 10 n ! 0 = 0"
  by (simp add: linspace_def Let_def nth_list_update)

lemma linspace_last: "1 < n \<Longrightarrow> last (linspace 0 10 n) = 10"
  by (simp add: linspace_def Let_def last_list_update)

lemma np_max_eq: "np_max a = (if a = [] then Inl ValueError else Inr (Max (set a)))"
  by (cases a) (simp_all add: np_max_def Max.set_eq_fold[symmetric])

lemma np_min_eq: "np_min a = (if a = [] then Inl ValueError else Inr (Min (set a)))"
  by (cases a) (simp_all add: np_min_def Min.set_eq_fold[symmetric])

lemma argmax_from_props:
  assumes "best < i" "length pre = i" "pre ! best = bv" "\<forall>j<i. pre ! j \<le> bv" "\<forall>j<best. pre ! j < bv"
  shows "let k = argmax_from vs i best bv; a = pre @ vs in
         k < length a \<and> (\<forall>j<length a. a ! j \<le> a ! k) \<and> (\<forall>j<k. a ! j < a ! k)"
  using assms
proof (induction vs arbitrary: i best bv pre)
  case Nil
  then show ?case by (simp add: Let_def)
next
  case (Cons v vs)
  show ?case
  proof (cases "bv < v")
    case True
    have "let k = argmax_from vs (Suc i) i v; a = (pre @ [v]) @ vs in
         k < length a \<and> (\<forall>j<length a. a ! j \<le> a ! k) \<and> (\<forall>j<k. a ! j < a ! k)"
      apply (rule Cons.IH)
      using Cons.prems True by (auto simp: nth_append less_Suc_eq)
    with True show ?thesis by (simp add: Let_def)
  next
    case False
    have "let k = argmax_from vs (Suc i) best bv; a = (pre @ [v]) @ vs in
         k < length a \<and> (\<forall>j<length a. a ! j \<le> a ! k) \<and> (\<forall>j<k. a ! j < a ! k)"
      apply (rule Cons.IH)
      using Cons.prems False by (auto simp: nth_append less_Suc_eq)
    with False show ?thesis by (simp add: Let_def)
  qed
qed

lemma np_argmax_props:
  assumes "a \<noteq> []"
  shows "\<exists>k. np_argmax a = Inr k \<and> k < length a \<and> (\<forall>j<length a. a ! j \<le> a ! k)
            \<and> (\<forall>j<k. a ! j < a ! k)"
proof -
  obtain v vs where a: "a = v # vs" using assms by (cases a) auto
  have "let k = argmax_from vs 1 0 v; b = [v] @ vs in
         k < length b \<and> (\<forall>j<length b. b ! j \<le> b ! k) \<and> (\<forall>j<k. b ! j < b ! k)"
    by (rule argmax_from_props) auto
  then show ?thesis by (simp add: a np_argmax_def Let_def)
qed

lemma np_argmax_max:
  assumes "a \<noteq> []" "np_argmax a = Inr k"
  shows "a ! k = Max (set a)"
proof -
  from np_argmax_props[OF assms(1)] assms(2)
  have k: "k < length a" "\<forall>j<length a. a ! j \<le> a ! k" by auto
  show ?thesis
  proof (rule Max_eqI[symmetric])
    show "finite (set a)" by simp
    show "a ! k \<in> set a" using k by simp
    show "\<And>y. y \<in> set a \<Longrightarrow> y \<le> a ! k" using k by (auto simp: in_set_conv_nth)
  qed
qed

lemma length_slice_step:
  "0 < k \<Longrightarrow> length (slice_step xs k) = (length xs + k - 1) div k"
proof (induction xs k rule: slice_step.induct)
  case (1 k)
  then show ?case by simp
next
  case (2 v vs k)
  show ?case
  proof (cases "length vs < k - 1")
    case True
    then have "drop (k - 1) vs = []" by simp
    moreover have "(Suc (length vs) + k - 1) div k = 1"
      using True 2 by (simp add: div_nat_eqI)
    ultimately show ?thesis by simp
  next
    case False
    then have "length vs + k = (length vs - (k - 1) + k - 1) + k" using 2 by simp
    then have "(length vs + k) div k = Suc ((length vs - (k - 1) + k - 1) div k)"
      using 2 by (metis div_add_self2 Suc_eq_plus1 less_numeral_extra(3))
    with 2 show ?thesis by simp
  qed
qed

lemma slice_step_nth:
  "0 < k \<Longrightarrow> j * k < length xs \<Longrightarrow> slice_step xs k ! j = xs ! (j * k)"
proof (induction xs k arbitrary: j rule: slice_step.induct)
  case (1 k)
  then show ?case by simp
next
  case (2 v vs k)
  show ?case
  proof (cases j)
    case 0
    then show ?thesis by simp
  next
    case (Suc m)
    have lt: "m * k < length (drop (k - 1) vs)" using 2 Suc by simp
    have "slice_step (drop (k - 1) vs) k ! m = drop (k - 1) vs ! (m * k)"
      by (rule 2) (use 2 lt in auto)
    also have "\<dots> = vs ! (k - 1 + m * k)" using lt by simp
    also have "\<dots> = (v # vs) ! (Suc m * k)" using 2 by (simp add: nth_Cons')
    finally show ?thesis using Suc by simp
  qed
qed


lemma generate_fail: "noise_level p < 0 \<Longrightarrow> generate p st = Inl ValueError"
  by (simp add: generate_def random_normal_def)

lemma generate_ok:
  assumes "0 \<le> noise_level p"
  shows "\<exists>d st'. generate p st = Inr (d, st')"
  using assms by (simp add: generate_def random_normal_def random_choice_def Let_def)

lemma generate_x:
  "generate p st = Inr (d, st') \<Longrightarrow> x_arr d = linspace 0 10 (num_points p)"
  by (auto simp: generate_def random_normal_def random_choice_def Let_def split: if_splits)

lemma generate_lengths:
  assumes "generate p st = Inr (d, st')"
  shows "length (x_arr d) = num_points p" "length (y1_arr d) = num_points p"
        "length (y2_arr d) = num_points p" "length (categories d) = num_points p"
  using assms
  by (auto simp: generate_def random_normal_def random_choice_def Let_def arr_add_def
      length_linspace split: if_splits)

lemma arr_add_zeros: "length a = n \<Longrightarrow> arr_add a (map (\<lambda>i. 0) [0..<n]) = a"
  by (simp add: arr_add_def list_eq_iff_nth_eq)

lemma generate_eq:
  "generate p st =
     (if noise_level p < 0 then Inl ValueError
      else Inr (\<lparr>x_arr = linspace 0 10 (num_points p),
                 y1_arr = arr_add (map sin (linspace 0 10 (num_points p)))
                            (map (\<lambda>i. noise_level p * gauss st (gauss_pos st + i))
                               [0..<num_points p]),
                 y2_arr = arr_add (map cos (linspace 0 10 (num_points p)))
                            (map (\<lambda>i. noise_level p * gauss st (gauss_pos st + num_points p + i))
                               [0..<num_points p]),
                 categories = map (\<lambda>i. [''A'', ''B'', ''C''] ! (ints st (ints_pos st + i) mod 3))
                               [0..<num_points p]\<rparr>,
                st\<lparr>gauss_pos := gauss_pos st + num_points p + num_points p,
                   ints_pos := ints_pos st + num_points p\<rparr>))"
  by (simp add: generate_def random_normal_def random_choice_def Let_def)

lemma generate_noiseless:
  assumes "noise_level p = 0"
  shows "\<exists>cs st'. generate p st =
           Inr (\<lparr>x_arr = linspace 0 10 (num_points p),
                 y1_arr = map sin (linspace 0 10 (num_points p)),
                 y2_arr = map cos (linspace 0 10 (num_points p)),
                 categories = cs\<rparr>, st')"
proof -
  have "arr_add (map f (linspace 0 10 (num_points p))) (map (\<lambda>i. 0) [0..<num_points p])
        = map f (linspace 0 10 (num_points p))" for f :: "real \<Rightarrow> real"
    by (rule arr_add_zeros) (simp add: length_linspace)
  then show ?thesis
    by (simp add: generate_eq assms)
qed

lemma generate_graph_type: "generate (p\<lparr>graph_type := g\<rparr>) st = generate p st"
  by (simp add: generate_def cong: sum.case_cong prod.case_cong)

lemma data_summary_graph_free:
  "data_summary (d\<lparr>categories := cs\<rparr>) = data_summary d"
  by (simp add: data_summary_def cong: sum.case_cong)

lemma plot_selected_categories:
  "plot_selected p (d\<lparr>categories := cs\<rparr>) ax = plot_selected p d ax"
  by (simp add: plot_selected_def cong: sum.case_cong prod.case_cong if_cong)

lemma render_categories: "render p (d\<lparr>categories := cs\<rparr>) = render p d"
  by (simp add: render_def plot_selected_categories)

lemma data_summary_eq:
  "data_summary d =
     (if y1_arr d = [] \<or> y2_arr d = [] then Inl ValueError
      else Inr \<lparr>metrics =
                  [(''Max Sine Value'', fmt_2f (Max (set (y1_arr d)))),
                   (''Min Sine Value'', fmt_2f (Min (set (y1_arr d)))),
                   (''Max Cosine Value'', fmt_2f (Max (set (y2_arr d)))),
                   (''Min Cosine Value'', fmt_2f (Min (set (y2_arr d))))],
                preview =
                  [(''X Values'', take 5 (x_arr d)),
                   (''Sine Values'', take 5 (y1_arr d)),
                   (''Cosine Values'', take 5 (y2_arr d))]\<rparr>)"
  by (simp add: data_summary_def np_max_eq np_min_eq slice_upto_def)

lemma customize_artists: "artists (customize p ax) = artists ax"
  by (simp add: customize_def ax_grid_def Let_def)

lemma customize_annotations: "annotations (customize p ax) = annotations ax"
  by (simp add: customize_def ax_grid_def Let_def)

lemma customize_title: "title (customize p ax) = ''Beautiful '' @ graph_type p"
  by (simp add: customize_def ax_grid_def Let_def)

lemma customize_formatter:
  "y_formatter (customize p ax) = StrMethodFormatter \<lparr>grouping = True, precision = 1\<rparr>"
  by (simp add: customize_def ax_grid_def Let_def)

lemma customize_legend:
  "legend (customize p ax) =
     (if show_legend p then Some [(''loc'', PStr ''upper right''), (''framealpha'', PInt 1)]
      else legend ax)"
  by (simp add: customize_def ax_grid_def Let_def)

lemma customize_grid:
  "grid_on (customize p ax) \<and>
   grid_props (customize p ax) = [(''linestyle'', PStr ''--''), (''alpha'', PNum 0.6)]"
  by (simp add: customize_def ax_grid_def Let_def)

lemma plot_selected_scatter:
  assumes "graph_type p = ''Scatter Plot''" "y1_arr d \<noteq> []"
    "length (x_arr d) = length (y1_arr d)"
  shows "\<exists>k. k < length (y1_arr d) \<and> y1_arr d ! k = Max (set (y1_arr d)) \<and>
             (\<forall>j<k. y1_arr d ! j < y1_arr d ! k) \<and>
             plot_selected p d ax =
               Inr ((if show_annotations p
                     then ax_annotate ''Peak Value'' (x_arr d ! k, y1_arr d ! k)
                            (x_arr d ! k + 1, y1_arr d ! k + 0.5)
                            [(''facecolor'', PStr ''black''), (''shrink'', PNum 0.05)]
                     else id)
                      (add_artist (PathCollection (x_arr d) (y1_arr d)
                         [(''c'', PArr (y2_arr d)), (''cmap'', PStr ''viridis''), (''s'', PInt 100),
                          (''alpha'', PNum 0.7), (''label'', PStr ''Data Points'')]) ax),
                    Some (PathCollection (x_arr d) (y1_arr d)
                         [(''c'', PArr (y2_arr d)), (''cmap'', PStr ''viridis''), (''s'', PInt 100),
                          (''alpha'', PNum 0.7), (''label'', PStr ''Data Points'')]))"
proof -
  from np_argmax_props[OF assms(2)] obtain k where
    k: "np_argmax (y1_arr d) = Inr k" "k < length (y1_arr d)"
       "\<forall>j<k. y1_arr d ! j < y1_arr d ! k"
    by blast
  have m: "y1_arr d ! k = Max (set (y1_arr d))"
    using np_argmax_max[OF assms(2) k(1)] .
  have "plot_selected p d ax = Inr ((if show_annotations p
                     then ax_annotate ''Peak Value'' (x_arr d ! k, y1_arr d ! k)
                            (x_arr d ! k + 1, y1_arr d ! k + 0.5)
                            [(''facecolor'', PStr ''black''), (''shrink'', PNum 0.05)]
                     else id)
                      (add_artist (PathCollection (x_arr d) (y1_arr d)
                         [(''c'', PArr (y2_arr d)), (''cmap'', PStr ''viridis''), (''s'', PInt 100),
                          (''alpha'', PNum 0.7), (''label'', PStr ''Data Points'')]) ax),
                    Some (PathCollection (x_arr d) (y1_arr d)
                         [(''c'', PArr (y2_arr d)), (''cmap'', PStr ''viridis''), (''s'', PInt 100),
                          (''alpha'', PNum 0.7), (''label'', PStr ''Data Points'')]))"
    using assms k(1,2) m
    by (simp add: plot_selected_def ax_scatter_def getitem_def np_max_eq)
  with k m show ?thesis by blast
qed

lemma plot_selected_other:
  assumes "graph_type p \<noteq> ''Scatter Plot''"
  shows "\<exists>ax'. plot_selected p d ax = Inr (ax', None)"
  using assms by (simp add: plot_selected_def)

lemma render_ok:
  assumes "y1_arr d \<noteq> []" "length (x_arr d) = length (y1_arr d)"
  shows "\<exists>fig. render p d = Inr fig"
proof (cases "graph_type p = ''Scatter Plot''")
  case True
  from plot_selected_scatter[OF True assms, of "subplots (set_style p)"]
  show ?thesis by (auto simp: render_def)
next
  case False
  from plot_selected_other[OF False, of d "subplots (set_style p)"]
  show ?thesis by (auto simp: render_def)
qed

lemma plot_selected_err:
  assumes "plot_selected p d ax = Inl e" "length (x_arr d) = length (y1_arr d)"
  shows "e = ValueError \<and> y1_arr d = []"
proof (cases "y1_arr d = []")
  case True
  with assms show ?thesis
    by (auto simp: plot_selected_def ax_scatter_def np_argmax_def split: if_splits)
next
  case False
  show ?thesis
  proof (cases "graph_type p = ''Scatter Plot''")
    case True
    from plot_selected_scatter[OF True False assms(2), of ax] assms(1)
    show ?thesis by auto
  next
    case F: False
    from plot_selected_other[OF F, of d ax] assms(1) show ?thesis by auto
  qed
qed

lemma render_err:
  assumes "render p d = Inl e" "length (x_arr d) = length (y1_arr d)"
  shows "e = ValueError \<and> y1_arr d = []"
proof -
  from assms(1) have "plot_selected p d (subplots (set_style p)) = Inl e"
    by (auto simp: render_def split: sum.splits)
  then show ?thesis using assms(2) by (rule plot_selected_err)
qed

lemma run_script_char:
  "map_sum id (\<lambda>r. (page_data r, page_summary r)) (run_script p st) =
     (case generate p st of
        Inl e \<Rightarrow> Inl e
      | Inr (d, st') \<Rightarrow> (case data_summary d of Inl e \<Rightarrow> Inl e | Inr s \<Rightarrow> Inr (d, s)))"
proof (cases "generate p st")
  case (Inl e)
  then show ?thesis by (simp add: run_script_def)
next
  case (Inr ds)
  obtain d st' where ds: "ds = (d, st')" by (cases ds)
  have g: "generate p st = Inr (d, st')" using Inr ds by simp
  have len: "length (x_arr d) = length (y1_arr d)"
    using generate_lengths(1,2)[OF g] by simp
  show ?thesis
  proof (cases "render p d")
    case (Inl e)
    from render_err[OF Inl len] have "e = ValueError" "y1_arr d = []" by auto
    then show ?thesis using g Inl by (simp add: run_script_def data_summary_eq)
  next
    case R: (Inr fig)
    then show ?thesis using g by (simp add: run_script_def split: sum.splits)
  qed
qed

lemma run_script_ok:
  assumes "0 \<le> noise_level p" "0 < num_points p"
  shows "\<exists>d st' fig s. generate p st = Inr (d, st') \<and> render p d = Inr fig \<and>
           data_summary d = Inr s \<and>
           run_script p st = Inr \<lparr>page_data = d, page_figure = fig, page_summary = s\<rparr>"
proof -
  from generate_ok[OF assms(1)] obtain d st' where g: "generate p st = Inr (d, st')"
    by blast
  have len: "length (x_arr d) = num_points p" "length (y1_arr d) = num_points p"
    "length (y2_arr d) = num_points p"
    using generate_lengths[OF g] by auto
  have ne: "y1_arr d \<noteq> []" "y2_arr d \<noteq> []" using len assms(2) by auto
  from render_ok[OF ne(1)] len obtain fig where r: "render p d = Inr fig" by auto
  from ne obtain s where s: "data_summary d = Inr s" by (simp add: data_summary_eq)
  show ?thesis using g r s by (simp add: run_script_def)
qed

lemma slice_step_index:
  assumes "0 < k" "j < (length xs + k - 1) div k"
  shows "j * k < length xs"
proof -
  from assms have "Suc j \<le> (length xs + k - 1) div k" by simp
  with assms(1) have "Suc j * k \<le> length xs + k - 1"
    by (simp only: less_eq_div_iff_mult_less_eq)
  then show ?thesis using assms(1) by simp
qed

lemma slice_step_eq_map:
  assumes "0 < k"
  shows "slice_step xs k = map (\<lambda>j. xs ! (j * k)) [0..<(length xs + k - 1) div k]"
  using assms
  by (simp add: list_eq_iff_nth_eq length_slice_step slice_step_nth slice_step_index)

lemma ceiling_tenth: "nat \<lceil>real n / 10\<rceil> = (n + 9) div 10"
proof -
  have a: "10 * ((n + 9) div 10) \<le> n + 9" and b: "n + 9 < 10 * ((n + 9) div 10) + 10"
    by arith+
  have "\<lceil>real n / 10\<rceil> = int ((n + 9) div 10)"
  proof (rule ceiling_unique)
    from a have "real (10 * ((n + 9) div 10)) \<le> real (n + 9)" by (simp only: of_nat_le_iff)
    then show "real_of_int (int ((n + 9) div 10)) - 1 < real n / 10" by simp
    from b have "real (n + 9) < real (10 * ((n + 9) div 10) + 10)" by (simp only: of_nat_less_iff)
    then show "real n / 10 \<le> real_of_int (int ((n + 9) div 10))" by simp
  qed
  then show ?thesis by simp
qed

lemma render_bar:
  assumes "graph_type p = ''Bar Chart''"
  shows "\<exists>fig. render p d = Inr fig \<and> fig_colorbar fig = None \<and>
           artists (fig_axes fig) =
             [BarContainer (slice_step (x_arr d) 10) (slice_step (y1_arr d) 10)
                [(''width'', PNum 0.5), (''alpha'', PNum 0.7), (''label'', PStr ''Sine Values'')],
              BarContainer (arr_add_scalar (slice_step (x_arr d) 10) 0.5) (slice_step (y2_arr d) 10)
                [(''width'', PNum 0.5), (''alpha'', PNum 0.7), (''label'', PStr ''Cosine Values'')]]"
  using assms
  by (simp add: render_def plot_selected_def customize_artists ax_bar_def add_artist_def
      subplots_def add_colorbar_def)

lemma run_script_bar:
  assumes "graph_type p = ''Bar Chart''" "0 \<le> noise_level p" "0 < num_points p"
  shows "\<exists>r. run_script p st = Inr r \<and>
           length (x_arr (page_data r)) = num_points p \<and>
           length (y1_arr (page_data r)) = num_points p \<and>
           length (y2_arr (page_data r)) = num_points p \<and>
           artists (fig_axes (page_figure r)) =
             [BarContainer (slice_step (x_arr (page_data r)) 10)
                (slice_step (y1_arr (page_data r)) 10)
                [(''width'', PNum 0.5), (''alpha'', PNum 0.7), (''label'', PStr ''Sine Values'')],
              BarContainer (arr_add_scalar (slice_step (x_arr (page_data r)) 10) 0.5)
                (slice_step (y2_arr (page_data r)) 10)
                [(''width'', PNum 0.5), (''alpha'', PNum 0.7), (''label'', PStr ''Cosine Values'')]]"
proof -
  from run_script_ok[OF assms(2,3), of st] obtain d st' fig s where
    g: "generate p st = Inr (d, st')" and r: "render p d = Inr fig" and
    run: "run_script p st = Inr \<lparr>page_data = d, page_figure = fig, page_summary = s\<rparr>"
    by blast
  from render_bar[OF assms(1), of d] r have
    "artists (fig_axes fig) =
             [BarContainer (slice_step (x_arr d) 10) (slice_step (y1_arr d) 10)
                [(''width'', PNum 0.5), (''alpha'', PNum 0.7), (''label'', PStr ''Sine Values'')],
              BarContainer (arr_add_scalar (slice_step (x_arr d) 10) 0.5) (slice_step (y2_arr d) 10)
                [(''width'', PNum 0.5), (''alpha'', PNum 0.7), (''label'', PStr ''Cosine Values'')]]"
    by auto
  with run generate_lengths[OF g] show ?thesis by simp
qed

lemma generate_other_ints:
  assumes "generate p st = Inr (d, st')"
  shows "\<exists>cs st''. generate p (st\<lparr>ints := c\<rparr>) = Inr (d\<lparr>categories := cs\<rparr>, st'')"
proof -
  from assms have nn: "\<not> noise_level p < 0"
    by (auto simp: generate_eq split: if_splits)
  from assms nn have d: "d = \<lparr>x_arr = linspace 0 10 (num_points p),
                 y1_arr = arr_add (map sin (linspace 0 10 (num_points p)))
                            (map (\<lambda>i. noise_level p * gauss st (gauss_pos st + i))
                               [0..<num_points p]),
                 y2_arr = arr_add (map cos (linspace 0 10 (num_points p)))
                            (map (\<lambda>i. noise_level p * gauss st (gauss_pos st + num_points p + i))
                               [0..<num_points p]),
                 categories = map (\<lambda>i. [''A'', ''B'', ''C''] ! (ints st (ints_pos st + i) mod 3))
                               [0..<num_points p]\<rparr>"
    by (simp add: generate_eq)
  show ?thesis using nn by (subst d) (simp add: generate_eq)
qed

lemma render_scatter:
  assumes "graph_type p = ''Scatter Plot''" "y1_arr d \<noteq> []"
    "length (x_arr d) = length (y1_arr d)"
  shows "\<exists>fig k. render p d = Inr fig \<and> k < length (y1_arr d) \<and>
           y1_arr d ! k = Max (set (y1_arr d)) \<and>
           artists (fig_axes fig) =
             [PathCollection (x_arr d) (y1_arr d)
                [(''c'', PArr (y2_arr d)), (''cmap'', PStr ''viridis''), (''s'', PInt 100),
                 (''alpha'', PNum 0.7), (''label'', PStr ''Data Points'')]] \<and>
           fig_colorbar fig =
             Some (PathCollection (x_arr d) (y1_arr d)
                [(''c'', PArr (y2_arr d)), (''cmap'', PStr ''viridis''), (''s'', PInt 100),
                 (''alpha'', PNum 0.7), (''label'', PStr ''Data Points'')], ''Cosine Values'') \<and>
           annotations (fig_axes fig) =
             (if show_annotations p
              then [\<lparr>ann_text = ''Peak Value'',
                     ann_xy = (x_arr d ! k, y1_arr d ! k),
                     ann_xytext = (x_arr d ! k + 1, y1_arr d ! k + 0.5),
                     ann_arrowprops = [(''facecolor'', PStr ''black''), (''shrink'', PNum 0.05)]\<rparr>]
              else [])"
proof -
  from plot_selected_scatter[OF assms, of "subplots (set_style p)"] obtain k where
    k: "k < length (y1_arr d)" "y1_arr d ! k = Max (set (y1_arr d))" and
    ps: "plot_selected p d (subplots (set_style p)) =
               Inr ((if show_annotations p
                     then ax_annotate ''Peak Value'' (x_arr d ! k, y1_arr d ! k)
                            (x_arr d ! k + 1, y1_arr d ! k + 0.5)
                            [(''facecolor'', PStr ''black''), (''shrink'', PNum 0.05)]
                     else id)
                      (add_artist (PathCollection (x_arr d) (y1_arr d)
                         [(''c'', PArr (y2_arr d)), (''cmap'', PStr ''viridis''), (''s'', PInt 100),
                          (''alpha'', PNum 0.7), (''label'', PStr ''Data Points'')])
                         (subplots (set_style p))),
                    Some (PathCollection (x_arr d) (y1_arr d)
                         [(''c'', PArr (y2_arr d)), (''cmap'', PStr ''viridis''), (''s'', PInt 100),
                          (''alpha'', PNum 0.7), (''label'', PStr ''Data Points'')]))"
    by blast
  show ?thesis
    apply (rule exI, rule exI[of _ k])
    apply (rule conjI)
     apply (simp add: render_def ps)
    using k assms(1)
    apply (simp add: customize_artists customize_annotations add_colorbar_def
        ax_annotate_def add_artist_def subplots_def)
    done
qed

lemma plot_selected_legend:
  "plot_selected p d ax = Inr (ax', sc) \<Longrightarrow> legend ax' = legend ax"
  by (auto simp: plot_selected_def ax_plot_def ax_bar_def ax_fill_between_def ax_scatter_def
      ax_annotate_def add_artist_def split: if_splits sum.splits)

lemma render_decoration:
  assumes "render p d = Inr fig"
  shows "title (fig_axes fig) = ''Beautiful '' @ graph_type p"
    "y_formatter (fig_axes fig) = StrMethodFormatter \<lparr>grouping = True, precision = 1\<rparr>"
    "legend (fig_axes fig) =
       (if show_legend p then Some [(''loc'', PStr ''upper right''), (''framealpha'', PInt 1)]
        else None)"
    "grid_on (fig_axes fig)"
    "grid_props (fig_axes fig) = [(''linestyle'', PStr ''--''), (''alpha'', PNum 0.6)]"
proof -
  from assms obtain ax sc where
    ps: "plot_selected p d (subplots (set_style p)) = Inr (ax, sc)" and
    fig: "fig_axes fig = customize p ax"
    by (auto simp: render_def split: sum.splits)
  have "legend ax = None" using plot_selected_legend[OF ps] by (simp add: subplots_def)
  then show "legend (fig_axes fig) =
       (if show_legend p then Some [(''loc'', PStr ''upper right''), (''framealpha'', PInt 1)]
        else None)"
    by (simp add: fig customize_legend)
  show "title (fig_axes fig) = ''Beautiful '' @ graph_type p"
    by (simp add: fig customize_title)
  show "y_formatter (fig_axes fig) = StrMethodFormatter \<lparr>grouping = True, precision = 1\<rparr>"
    by (simp add: fig customize_formatter)
  show "grid_on (fig_axes fig)"
    "grid_props (fig_axes fig) = [(''linestyle'', PStr ''--''), (''alpha'', PNum 0.6)]"
    by (simp_all add: fig customize_grid)
qed

lemma tick_label_example:
  "tick_label (StrMethodFormatter \<lparr>grouping = True, precision = 1\<rparr>) 1234.56 = Some ''1,234.6''"
  by (simp add: format_float_def round_half_even_def zero_pad_def digit_char_def
      group_thousands_def fix_minus_def)

lemma tick_label_negative:
  "tick_label (StrMethodFormatter \<lparr>grouping = True, precision = 1\<rparr>) (- 1000)
     = Some (CHR 0xE2 # CHR 0x88 # CHR 0x92 # ''1,000.0'')"
  by (simp add: format_float_def round_half_even_def zero_pad_def digit_char_def
      group_thousands_def fix_minus_def)

lemma round_half_even_close: "\<bar>real_of_int (round_half_even v) - v\<bar> \<le> 1 / 2"
  by (simp add: round_half_even_def Let_def)

lemma digit_char_props:
  assumes "d < 10"
  shows "is_digit (digit_char d)" "digit_val (digit_char d) = d"
proof -
  from assms have "d = 0 \<or> d = 1 \<or> d = 2 \<or> d = 3 \<or> d = 4 \<or> d = 5 \<or> d = 6 \<or> d = 7
      \<or> d = 8 \<or> d = 9" by arith
  then show "is_digit (digit_char d)" "digit_val (digit_char d) = d"
    by (auto simp: is_digit_def digit_val_def digit_char_def)
qed

lemma nat_of_digits_snoc: "nat_of_digits (s @ [c]) = 10 * nat_of_digits s + digit_val c"
  by (simp add: nat_of_digits_def)

lemma digits_props:
  "digits n \<noteq> [] \<and> list_all is_digit (digits n) \<and> nat_of_digits (digits n) = n"
proof (induction n rule: digits.induct)
  case (1 n)
  show ?case
  proof (cases "n < 10")
    case True
    then have "digits n = [digit_char n]" by (subst digits.simps) simp
    with digit_char_props[OF True] show ?thesis by (simp add: nat_of_digits_def)
  next
    case False
    then have d: "digits n = digits (n div 10) @ [digit_char (n mod 10)]"
      by (subst digits.simps) simp
    have m: "n mod 10 < 10" by simp
    from 1[OF False] digit_char_props[OF m] show ?thesis
      by (simp only: d nat_of_digits_snoc) simp
  qed
qed

lemma length_digits_small: "n < 100 \<Longrightarrow> length (digits n) \<le> 2"
proof -
  assume a: "n < 100"
  show ?thesis
  proof (cases "n < 10")
    case True
    then have "digits n = [digit_char n]" by (subst digits.simps) simp
    then show ?thesis by simp
  next
    case False
    then have d: "digits n = digits (n div 10) @ [digit_char (n mod 10)]"
      by (subst digits.simps) simp
    from a have "n div 10 < 10" by simp
    then have "digits (n div 10) = [digit_char (n div 10)]" by (subst digits.simps) simp
    with d show ?thesis by simp
  qed
qed

lemma nat_of_digits_zeros:
  "nat_of_digits (replicate k (CHR ''0'') @ s) = nat_of_digits s"
proof (induction k)
  case 0
  then show ?case by simp
next
  case (Suc k)
  have "foldl (\<lambda>n c. 10 * n + digit_val c) 0 (CHR ''0'' # t) =
        foldl (\<lambda>n c. 10 * n + digit_val c) 0 t" for t
    by (simp add: digit_val_def)
  with Suc show ?case by (simp add: nat_of_digits_def)
qed

lemma zero_pad_props:
  assumes "m < 100"
  shows "length (zero_pad 2 (digits m)) = 2" "list_all is_digit (zero_pad 2 (digits m))"
    "nat_of_digits (zero_pad 2 (digits m)) = m"
proof -
  have ne: "digits m \<noteq> []" and dg: "list_all is_digit (digits m)"
    and v: "nat_of_digits (digits m) = m"
    using digits_props[of m] by auto
  have "length (digits m) \<noteq> 0" using ne by (simp only: length_0_conv not_False_eq_True)
  with length_digits_small[OF assms]
  have "length (digits m) = 1 \<or> length (digits m) = 2" by arith
  then show "length (zero_pad 2 (digits m)) = 2"
    by (auto simp add: zero_pad_def simp del: digits.simps)
  have "is_digit (CHR ''0'')" by (simp add: is_digit_def)
  with dg show "list_all is_digit (zero_pad 2 (digits m))"
    by (auto simp add: zero_pad_def list_all_iff simp del: digits.simps)
  show "nat_of_digits (zero_pad 2 (digits m)) = m"
    by (simp only: zero_pad_def nat_of_digits_zeros v)
qed

lemma round_half_even_nonneg: "0 \<le> v \<Longrightarrow> 0 \<le> round_half_even v"
  by (simp add: round_half_even_def Let_def)

lemma fmt_2f_shape:
  "fmt_2f v = (if v < 0 then ''-'' else []) @ digits (nat (round_half_even (\<bar>v\<bar> * 100)) div 100)
      @ ''.'' @ zero_pad 2 (digits (nat (round_half_even (\<bar>v\<bar> * 100)) mod 100))"
  by (simp add: fmt_2f_def format_float_def Let_def del: digits.simps)

lemma two_decimals_shape:
  assumes "s = (if v < 0 then ''-'' else []) @ ip @ ''.'' @ fp" "ip \<noteq> []" "length fp = 2"
    "list_all is_digit ip" "list_all is_digit fp"
    "\<bar>real (nat_of_digits ip) + real (nat_of_digits fp) / 100 - \<bar>v\<bar>\<bar> \<le> 1 / 200"
  shows "two_decimals s v"
proof -
  have t: "(if v < 0 then drop 1 s else s) = ip @ ''.'' @ fp"
    proof (cases "v < 0")
      case True
      then show ?thesis using assms(1) by simp
    next
      case False
      then show ?thesis using assms(1) by simp
    qed
  have n: "length (ip @ ''.'' @ fp) = length ip + 3" using assms(3) by simp
  have pos: "0 < length ip" using assms(2) by simp
  have a: "take (length ip + 3 - 3) (ip @ ''.'' @ fp) = ip" by simp
  have b: "drop (length ip + 3 - 2) (ip @ ''.'' @ fp) = fp" by simp
  have c: "(ip @ ''.'' @ fp) ! (length ip + 3 - 3) = CHR ''.''" by (simp add: nth_append)
  have sg: "(if v < 0 then take 1 s = ''-'' else True)" using assms(1) by simp
  show ?thesis
    unfolding two_decimals_def Let_def t n a b c
    using sg pos assms(4,5,6) by (cases "v < 0") (auto simp: Suc_le_eq)
qed

lemma two_decimals_fmt_2f: "two_decimals (fmt_2f v) v"
proof -
  let ?q = "nat (round_half_even (\<bar>v\<bar> * 100))"
  have m: "?q mod 100 < 100" by simp
  have q: "real ?q = real_of_int (round_half_even (\<bar>v\<bar> * 100))"
    using round_half_even_nonneg[of "\<bar>v\<bar> * 100"] by simp
  have "real (?q div 100) + real (?q mod 100) / 100 = real ?q / 100"
  proof -
    have "real ?q = real (?q div 100 * 100 + ?q mod 100)" by simp
    also have "\<dots> = real (?q div 100) * 100 + real (?q mod 100)" by (simp only: of_nat_add of_nat_mult of_nat_numeral)
    finally show ?thesis by simp
  qed
  moreover have "\<bar>real ?q / 100 - \<bar>v\<bar>\<bar> \<le> 1 / 200"
  proof -
    have "\<bar>real ?q - \<bar>v\<bar> * 100\<bar> \<le> 1 / 2"
      unfolding q by (rule round_half_even_close)
    then show ?thesis by (simp add: abs_le_iff field_simps)
  qed
  ultimately have "\<bar>real (?q div 100) + real (?q mod 100) / 100 - \<bar>v\<bar>\<bar> \<le> 1 / 200"
    by (simp only:)
  moreover have ip: "digits (?q div 100) \<noteq> []" "list_all is_digit (digits (?q div 100))"
    "nat_of_digits (digits (?q div 100)) = ?q div 100"
    using digits_props[of "?q div 100"] by blast+
  ultimately have close: "\<bar>real (nat_of_digits (digits (?q div 100)))
      + real (nat_of_digits (zero_pad 2 (digits (?q mod 100)))) / 100 - \<bar>v\<bar>\<bar> \<le> 1 / 200"
    by (simp only: zero_pad_props(3)[OF m])
  show ?thesis
    by (rule two_decimals_shape[OF fmt_2f_shape ip(1) zero_pad_props(1)[OF m] ip(2)
          zero_pad_props(2)[OF m] close])
qed

section \<open>The claims\<close>

text \<open>
  Claim C1. With palette, the three toggles, \<open>num_points\<close>, \<open>noise_level\<close> and the random
  generator fixed, a run with another \<open>graph_type\<close> ends the same way as the run with the
  original one: either both stop with the same error, or both complete with the same
  dataset (\<open>x\<close>, \<open>y1\<close>, \<open>y2\<close> and \<open>categories\<close>) and the same summary panel. Only the
  figure can differ.
\<close>

theorem graph_type_keeps_dataset:
  "map_sum id (\<lambda>r. (page_data r, page_summary r)) (run_script (p\<lparr>graph_type := g\<rparr>) st)
   = map_sum id (\<lambda>r. (page_data r, page_summary r)) (run_script p st)"
  by (simp only: run_script_char generate_graph_type)

text \<open>
  Claim C2. For \<open>num_points\<close> from 10 to 500 and \<open>noise_level = 0\<close>, generation succeeds
  for every state of the random generator, \<open>x\<close> is the grid \<open>linspace 0 10 num_points\<close>,
  and \<open>y1\<close> is exactly \<open>sin\<close> of \<open>x\<close> and \<open>y2\<close> exactly \<open>cos\<close> of \<open>x\<close>, entry by entry:
  no variate of the generator appears in them.
\<close>

theorem noiseless_is_exact:
  assumes "10 \<le> num_points p" "num_points p \<le> 500" "noise_level p = 0"
  shows "\<exists>d st'. generate p st = Inr (d, st') \<and>
           x_arr d = linspace 0 10 (num_points p) \<and>
           y1_arr d = map sin (x_arr d) \<and> y2_arr d = map cos (x_arr d) \<and>
           length (x_arr d) = num_points p \<and>
           (\<forall>i<num_points p. y1_arr d ! i = sin (x_arr d ! i) \<and> y2_arr d ! i = cos (x_arr d ! i))"
proof -
  from generate_noiseless[OF assms(3), of st] obtain cs st' where
    g: "generate p st = Inr (\<lparr>x_arr = linspace 0 10 (num_points p),
                 y1_arr = map sin (linspace 0 10 (num_points p)),
                 y2_arr = map cos (linspace 0 10 (num_points p)),
                 categories = cs\<rparr>, st')" by blast
  show ?thesis
    by (rule exI, rule exI, rule conjI, rule g) (simp add: length_linspace)
qed

theorem noiseless_is_exact_witness:
  "10 \<le> num_points (default_params\<lparr>num_points := 10, noise_level := 0\<rparr>) \<and>
   num_points (default_params\<lparr>num_points := 10, noise_level := 0\<rparr>) \<le> 500 \<and>
   noise_level (default_params\<lparr>num_points := 10, noise_level := 0\<rparr>) = 0 \<and>
   (\<exists>d st'. generate (default_params\<lparr>num_points := 10, noise_level := 0\<rparr>) seed0 = Inr (d, st') \<and>
      y1_arr d = map sin (x_arr d) \<and> y2_arr d = map cos (x_arr d) \<and>
      length (x_arr d) = 10 \<and>
      y1_arr d ! 3 = sin (x_arr d ! 3) \<and> y2_arr d ! 3 = cos (x_arr d ! 3))"
proof -
  let ?p = "default_params\<lparr>num_points := 10, noise_level := 0\<rparr>"
  have h: "10 \<le> num_points ?p" "num_points ?p \<le> 500" "noise_level ?p = 0"
    by simp_all
  have n: "num_points ?p = 10" by simp
  from noiseless_is_exact[OF h, of seed0] n h show ?thesis
    by (simp only: simp_thms) force
qed

text \<open>
  Claim C3. For every setting the sliders allow (\<open>num_points\<close> from 10 to 500, any
  \<open>noise_level\<close> from 0 to 1) and every state of the random generator, generation succeeds
  and \<open>x\<close>, \<open>y1\<close>, \<open>y2\<close> and \<open>categories\<close> all have length \<open>num_points\<close>.
\<close>

theorem arrays_have_num_points:
  assumes "slider_ranges p"
  shows "\<exists>d st'. generate p st = Inr (d, st') \<and>
           length (x_arr d) = num_points p \<and> length (y1_arr d) = num_points p \<and>
           length (y2_arr d) = num_points p \<and> length (categories d) = num_points p"
proof -
  from assms have "0 \<le> noise_level p" by (simp add: slider_ranges_def)
  from generate_ok[OF this] obtain d st' where g: "generate p st = Inr (d, st')" by blast
  with generate_lengths[OF g] show ?thesis by blast
qed

theorem arrays_have_num_points_witness:
  "slider_ranges default_params \<and>
   (\<exists>d st'. generate default_params seed0 = Inr (d, st') \<and>
      length (x_arr d) = 100 \<and> length (y1_arr d) = 100 \<and>
      length (y2_arr d) = 100 \<and> length (categories d) = 100)"
proof -
  have h: "slider_ranges default_params"
    by (simp add: slider_ranges_def default_params_def)
  have n: "num_points default_params = 100" by (simp add: default_params_def)
  from arrays_have_num_points[OF h, of seed0] show ?thesis
    using h by (simp only: n simp_thms)
qed

text \<open>
  Claim C4. For \<open>num_points\<close> from 10 to 500 the grid \<open>np.linspace(0, 10, num_points)\<close>
  is strictly increasing, starts at 0 and ends at 10, and it is the array \<open>x\<close> of the
  generated dataset (generation stops with \<open>ValueError\<close> only for a negative noise
  level, which the slider cannot return). In this model of real arithmetic the two end
  points are exact.
\<close>

theorem x_grid_increasing:
  assumes "10 \<le> num_points p" "num_points p \<le> 500"
  shows "sorted_wrt (<) (linspace 0 10 (num_points p)) \<and>
         linspace 0 10 (num_points p) ! 0 = 0 \<and>
         last (linspace 0 10 (num_points p)) = 10 \<and>
         map_sum id (\<lambda>ds. x_arr (fst ds)) (generate p st) =
           (if noise_level p < 0 then Inl ValueError
            else Inr (linspace 0 10 (num_points p)))"
proof -
  from assms have n: "1 < num_points p" "0 < num_points p" by simp_all
  have "map_sum id (\<lambda>ds. x_arr (fst ds)) (generate p st) =
           (if noise_level p < 0 then Inl ValueError
            else Inr (linspace 0 10 (num_points p)))"
    by (simp add: generate_eq)
  with linspace_strict[OF n(1)] linspace_first[OF n(2)] linspace_last[OF n(1)]
  show ?thesis by simp
qed

theorem x_grid_increasing_witness:
  "10 \<le> num_points (default_params\<lparr>num_points := 500\<rparr>) \<and>
   num_points (default_params\<lparr>num_points := 500\<rparr>) \<le> 500 \<and>
   sorted_wrt (<) (linspace 0 10 500) \<and>
   linspace 0 10 500 ! 0 = 0 \<and>
   last (linspace 0 10 500) = 10 \<and>
   map_sum id (\<lambda>ds. x_arr (fst ds)) (generate (default_params\<lparr>num_points := 500\<rparr>) seed0)
     = Inr (linspace 0 10 500)"
proof -
  let ?p = "default_params\<lparr>num_points := 500\<rparr>"
  have h: "10 \<le> num_points ?p" "num_points ?p \<le> 500" by simp_all
  have n: "num_points ?p = 500" by simp
  have z: "\<not> noise_level ?p < 0" by (simp add: default_params_def)
  from x_grid_increasing[OF h, of seed0] h show ?thesis
    by (simp only: n z if_False simp_thms)
qed

text \<open>
  Claim C5. With \<open>graph_type = Bar Chart\<close> and \<open>num_points = 100\<close> the run completes and
  the axes hold exactly two bar series. Each has 10 bars; the first sits at
  \<open>x[0], x[10], ..., x[90]\<close>, the second at the same positions shifted by 0.5, and both
  are drawn with width 0.5.
\<close>

theorem bar_chart_hundred_points:
  assumes "graph_type p = ''Bar Chart''" "num_points p = 100" "slider_ranges p"
  shows "\<exists>r b1 b2. run_script p st = Inr r \<and>
           artists (fig_axes (page_figure r)) = [b1, b2] \<and>
           length (bar_positions b1) = 10 \<and> length (bar_positions b2) = 10 \<and>
           bar_positions b1 = map (\<lambda>j. x_arr (page_data r) ! (j * 10)) [0..<10] \<and>
           bar_positions b2 = map (\<lambda>v. v + 0.5) (bar_positions b1) \<and>
           bar_width b1 = Some (PNum 0.5) \<and> bar_width b2 = Some (PNum 0.5)"
proof -
  from assms have z: "0 \<le> noise_level p" "0 < num_points p"
    by (simp_all add: slider_ranges_def)
  from run_script_bar[OF assms(1) z, of st] obtain r where
    run: "run_script p st = Inr r" and len: "length (x_arr (page_data r)) = 100" and
    art: "artists (fig_axes (page_figure r)) =
             [BarContainer (slice_step (x_arr (page_data r)) 10)
                (slice_step (y1_arr (page_data r)) 10)
                [(''width'', PNum 0.5), (''alpha'', PNum 0.7), (''label'', PStr ''Sine Values'')],
              BarContainer (arr_add_scalar (slice_step (x_arr (page_data r)) 10) 0.5)
                (slice_step (y2_arr (page_data r)) 10)
                [(''width'', PNum 0.5), (''alpha'', PNum 0.7), (''label'', PStr ''Cosine Values'')]]"
    using assms(2) by auto
  have sl: "slice_step (x_arr (page_data r)) 10 = map (\<lambda>j. x_arr (page_data r) ! (j * 10)) [0..<10]"
    by (simp add: slice_step_eq_map len)
  show ?thesis
    apply (rule exI[of _ r])
    apply (rule exI, rule exI)
    apply (rule conjI, rule run)
    apply (rule conjI, rule art)
    apply (simp add: arr_add_scalar_def length_slice_step len)
    apply (simp add: sl)
    done
qed

theorem bar_chart_hundred_points_witness:
  "graph_type (default_params\<lparr>graph_type := ''Bar Chart''\<rparr>) = ''Bar Chart'' \<and>
   num_points (default_params\<lparr>graph_type := ''Bar Chart''\<rparr>) = 100 \<and>
   slider_ranges (default_params\<lparr>graph_type := ''Bar Chart''\<rparr>) \<and>
   (\<exists>r b1 b2. run_script (default_params\<lparr>graph_type := ''Bar Chart''\<rparr>) seed0 = Inr r \<and>
      artists (fig_axes (page_figure r)) = [b1, b2] \<and>
      length (bar_positions b1) = 10 \<and> length (bar_positions b2) = 10 \<and>
      bar_positions b1 = map (\<lambda>j. x_arr (page_data r) ! (j * 10)) [0..<10] \<and>
      bar_positions b2 = map (\<lambda>v. v + 0.5) (bar_positions b1) \<and>
      bar_width b1 = Some (PNum 0.5) \<and> bar_width b2 = Some (PNum 0.5))"
proof -
  let ?p = "default_params\<lparr>graph_type := ''Bar Chart''\<rparr>"
  have h: "graph_type ?p = ''Bar Chart''" "num_points ?p = 100" "slider_ranges ?p"
    by (simp_all add: slider_ranges_def default_params_def)
  from bar_chart_hundred_points[OF h, of seed0] h show ?thesis
    by (simp only: simp_thms)
qed

text \<open>
  Claim C6. For every setting the sliders allow, the run completes and the four metrics
  shown are \<open>max(y1)\<close>, \<open>min(y1)\<close>, \<open>max(y2)\<close>, \<open>min(y2)\<close> of the generated arrays, each
  formatted with \<open>.2f\<close>. Each displayed string is a sign, an integer part, a point and
  exactly two digits, and the number it writes is within half a hundredth of the
  extreme (\<open>two_decimals\<close>). For \<open>y1 = [0.0, 0.84, 0.91, 0.14, -0.76]\<close> the first two
  metrics read \<open>0.91\<close> and \<open>-0.76\<close>; for \<open>y1 = [2, 0.125, -0.001]\<close> and
  \<open>y2 = [0.999, 0.375, 1.05]\<close> the four metrics read \<open>2.00\<close>, \<open>-0.00\<close>, \<open>1.05\<close> and \<open>0.38\<close>,
  and for \<open>y2 = [0.999, 0.125]\<close> the last two read \<open>1.00\<close> and \<open>0.12\<close>.
\<close>

theorem summary_metrics_are_extremes:
  assumes "slider_ranges p"
  shows "(\<exists>r m1 m2 m3 m4. run_script p st = Inr r \<and>
            metrics (page_summary r) =
              [(''Max Sine Value'', m1), (''Min Sine Value'', m2),
               (''Max Cosine Value'', m3), (''Min Cosine Value'', m4)] \<and>
            m1 = fmt_2f (Max (set (y1_arr (page_data r)))) \<and>
            m2 = fmt_2f (Min (set (y1_arr (page_data r)))) \<and>
            m3 = fmt_2f (Max (set (y2_arr (page_data r)))) \<and>
            m4 = fmt_2f (Min (set (y2_arr (page_data r)))) \<and>
            two_decimals m1 (Max (set (y1_arr (page_data r)))) \<and>
            two_decimals m2 (Min (set (y1_arr (page_data r)))) \<and>
            two_decimals m3 (Max (set (y2_arr (page_data r)))) \<and>
            two_decimals m4 (Min (set (y2_arr (page_data r))))) \<and>
         map_sum id (take 2 \<circ> metrics)
           (data_summary \<lparr>x_arr = xs, y1_arr = [0.0, 0.84, 0.91, 0.14, - 0.76],
                          y2_arr = v # vs, categories = cs\<rparr>)
           = Inr [(''Max Sine Value'', ''0.91''), (''Min Sine Value'', ''-0.76'')] \<and>
         map_sum id metrics
           (data_summary \<lparr>x_arr = xs, y1_arr = [2, 0.125, - 0.001],
                          y2_arr = [0.999, 0.375, 1.05], categories = cs\<rparr>)
           = Inr [(''Max Sine Value'', ''2.00''), (''Min Sine Value'', ''-0.00''),
                  (''Max Cosine Value'', ''1.05''), (''Min Cosine Value'', ''0.38'')] \<and>
         map_sum id (drop 2 \<circ> metrics)
           (data_summary \<lparr>x_arr = xs, y1_arr = [0], y2_arr = [0.999, 0.125],
                          categories = cs\<rparr>)
           = Inr [(''Max Cosine Value'', ''1.00''), (''Min Cosine Value'', ''0.12'')]"
proof (intro conjI)
  from assms have z: "0 \<le> noise_level p" "0 < num_points p"
    by (simp_all add: slider_ranges_def)
  from run_script_ok[OF z, of st] obtain d st' fig s where
    g: "generate p st = Inr (d, st')" and s: "data_summary d = Inr s" and
    run: "run_script p st = Inr \<lparr>page_data = d, page_figure = fig, page_summary = s\<rparr>"
    by blast
  from s have "metrics s =
              [(''Max Sine Value'', fmt_2f (Max (set (y1_arr d)))),
               (''Min Sine Value'', fmt_2f (Min (set (y1_arr d)))),
               (''Max Cosine Value'', fmt_2f (Max (set (y2_arr d)))),
               (''Min Cosine Value'', fmt_2f (Min (set (y2_arr d))))]"
    by (auto simp: data_summary_eq split: if_splits)
  with run show "\<exists>r m1 m2 m3 m4. run_script p st = Inr r \<and>
            metrics (page_summary r) =
              [(''Max Sine Value'', m1), (''Min Sine Value'', m2),
               (''Max Cosine Value'', m3), (''Min Cosine Value'', m4)] \<and>
            m1 = fmt_2f (Max (set (y1_arr (page_data r)))) \<and>
            m2 = fmt_2f (Min (set (y1_arr (page_data r)))) \<and>
            m3 = fmt_2f (Max (set (y2_arr (page_data r)))) \<and>
            m4 = fmt_2f (Min (set (y2_arr (page_data r)))) \<and>
            two_decimals m1 (Max (set (y1_arr (page_data r)))) \<and>
            two_decimals m2 (Min (set (y1_arr (page_data r)))) \<and>
            two_decimals m3 (Max (set (y2_arr (page_data r)))) \<and>
            two_decimals m4 (Min (set (y2_arr (page_data r))))"
    by (simp add: two_decimals_fmt_2f del: digits.simps)
next
  have a: "fmt_2f (91 / 100) = ''0.91''"
    by (simp add: fmt_2f_def format_float_def round_half_even_def zero_pad_def digit_char_def)
  have b: "fmt_2f (- (19 / 25)) = ''-0.76''"
    by (simp add: fmt_2f_def format_float_def round_half_even_def zero_pad_def digit_char_def)
  show "map_sum id (take 2 \<circ> metrics)
           (data_summary \<lparr>x_arr = xs, y1_arr = [0.0, 0.84, 0.91, 0.14, - 0.76],
                          y2_arr = v # vs, categories = cs\<rparr>)
           = Inr [(''Max Sine Value'', ''0.91''), (''Min Sine Value'', ''-0.76'')]"
    by (simp add: data_summary_def np_max_def np_min_def a b)
next
  have a: "fmt_2f 2 = ''2.00''"
    by (simp add: fmt_2f_def format_float_def round_half_even_def zero_pad_def digit_char_def)
  have b: "fmt_2f (- (1 / 1000)) = ''-0.00''"
    by (simp add: fmt_2f_def format_float_def round_half_even_def zero_pad_def digit_char_def)
  have c: "fmt_2f (21 / 20) = ''1.05''"
    by (simp add: fmt_2f_def format_float_def round_half_even_def zero_pad_def digit_char_def)
  have d: "fmt_2f (3 / 8) = ''0.38''"
    by (simp add: fmt_2f_def format_float_def round_half_even_def zero_pad_def digit_char_def)
  show "map_sum id metrics
           (data_summary \<lparr>x_arr = xs, y1_arr = [2, 0.125, - 0.001],
                          y2_arr = [0.999, 0.375, 1.05], categories = cs\<rparr>)
           = Inr [(''Max Sine Value'', ''2.00''), (''Min Sine Value'', ''-0.00''),
                  (''Max Cosine Value'', ''1.05''), (''Min Cosine Value'', ''0.38'')]"
    by (simp add: data_summary_def np_max_def np_min_def a b c d)
next
  have a: "fmt_2f (999 / 1000) = ''1.00''"
    by (simp add: fmt_2f_def format_float_def round_half_even_def zero_pad_def digit_char_def)
  have b: "fmt_2f (1 / 8) = ''0.12''"
    by (simp add: fmt_2f_def format_float_def round_half_even_def zero_pad_def digit_char_def)
  show "map_sum id (drop 2 \<circ> metrics)
           (data_summary \<lparr>x_arr = xs, y1_arr = [0], y2_arr = [0.999, 0.125],
                          categories = cs\<rparr>)
           = Inr [(''Max Cosine Value'', ''1.00''), (''Min Cosine Value'', ''0.12'')]"
    by (simp add: data_summary_def np_max_def np_min_def a b)
qed

theorem summary_metrics_are_extremes_witness:
  "slider_ranges default_params \<and>
   (\<exists>r m1 m2 m3 m4. run_script default_params seed0 = Inr r \<and>
      metrics (page_summary r) =
        [(''Max Sine Value'', m1), (''Min Sine Value'', m2),
         (''Max Cosine Value'', m3), (''Min Cosine Value'', m4)] \<and>
      m1 = fmt_2f (Max (set (y1_arr (page_data r)))) \<and>
      m2 = fmt_2f (Min (set (y1_arr (page_data r)))) \<and>
      m3 = fmt_2f (Max (set (y2_arr (page_data r)))) \<and>
      m4 = fmt_2f (Min (set (y2_arr (page_data r)))) \<and>
      two_decimals m1 (Max (set (y1_arr (page_data r)))) \<and>
      two_decimals m2 (Min (set (y1_arr (page_data r)))) \<and>
      two_decimals m3 (Max (set (y2_arr (page_data r)))) \<and>
      two_decimals m4 (Min (set (y2_arr (page_data r))))) \<and>
   map_sum id (take 2 \<circ> metrics)
     (data_summary \<lparr>x_arr = [0, 1, 2, 3, 4], y1_arr = [0.0, 0.84, 0.91, 0.14, - 0.76],
                    y2_arr = [1, 0.54, - 0.42, - 0.99, - 0.65], categories = []\<rparr>)
     = Inr [(''Max Sine Value'', ''0.91''), (''Min Sine Value'', ''-0.76'')] \<and>
   map_sum id metrics
     (data_summary \<lparr>x_arr = [0, 1, 2, 3, 4], y1_arr = [2, 0.125, - 0.001],
                    y2_arr = [0.999, 0.375, 1.05], categories = []\<rparr>)
     = Inr [(''Max Sine Value'', ''2.00''), (''Min Sine Value'', ''-0.00''),
            (''Max Cosine Value'', ''1.05''), (''Min Cosine Value'', ''0.38'')] \<and>
   map_sum id (drop 2 \<circ> metrics)
     (data_summary \<lparr>x_arr = [0, 1, 2, 3, 4], y1_arr = [0], y2_arr = [0.999, 0.125],
                    categories = []\<rparr>)
     = Inr [(''Max Cosine Value'', ''1.00''), (''Min Cosine Value'', ''0.12'')]"
proof -
  have h: "slider_ranges default_params"
    by (simp add: slider_ranges_def default_params_def)
  from summary_metrics_are_extremes[OF h, of seed0 "[0, 1, 2, 3, 4]" 1
      "[0.54, - 0.42, - 0.99, - 0.65]" "[]"] h
  show ?thesis by (simp only: simp_thms)
qed

text \<open>
  Claim C7. With \<open>graph_type = Scatter Plot\<close> the run completes; the axes hold one
  scatter of \<open>y1\<close> against \<open>x\<close> whose colour array is \<open>y2\<close> under the colour map
  \<open>viridis\<close>, and the colour bar is attached to that scatter and labelled
  \<open>Cosine Values\<close>. With \<open>show_annotations\<close> there is exactly one annotation: it points at
  \<open>(x[k], y1[k])\<close> for an index \<open>k\<close> where \<open>y1\<close> is maximal, and its text sits at
  \<open>(x[k] + 1, y1[k] + 0.5)\<close>. Without \<open>show_annotations\<close> there is none.
\<close>

theorem scatter_plot_figure:
  assumes "graph_type p = ''Scatter Plot''" "slider_ranges p"
  shows "\<exists>r k. run_script p st = Inr r \<and> k < num_points p \<and>
           y1_arr (page_data r) ! k = Max (set (y1_arr (page_data r))) \<and>
           artists (fig_axes (page_figure r)) =
             [PathCollection (x_arr (page_data r)) (y1_arr (page_data r))
                [(''c'', PArr (y2_arr (page_data r))), (''cmap'', PStr ''viridis''),
                 (''s'', PInt 100), (''alpha'', PNum 0.7), (''label'', PStr ''Data Points'')]] \<and>
           fig_colorbar (page_figure r) =
             Some (PathCollection (x_arr (page_data r)) (y1_arr (page_data r))
                [(''c'', PArr (y2_arr (page_data r))), (''cmap'', PStr ''viridis''),
                 (''s'', PInt 100), (''alpha'', PNum 0.7), (''label'', PStr ''Data Points'')],
                ''Cosine Values'') \<and>
           annotations (fig_axes (page_figure r)) =
             (if show_annotations p
              then [\<lparr>ann_text = ''Peak Value'',
                     ann_xy = (x_arr (page_data r) ! k, y1_arr (page_data r) ! k),
                     ann_xytext = (x_arr (page_data r) ! k + 1, y1_arr (page_data r) ! k + 0.5),
                     ann_arrowprops = [(''facecolor'', PStr ''black''), (''shrink'', PNum 0.05)]\<rparr>]
              else [])"
proof -
  from assms have z: "0 \<le> noise_level p" "0 < num_points p"
    by (simp_all add: slider_ranges_def)
  from run_script_ok[OF z, of st] obtain d st' fig s where
    g: "generate p st = Inr (d, st')" and r: "render p d = Inr fig" and
    run: "run_script p st = Inr \<lparr>page_data = d, page_figure = fig, page_summary = s\<rparr>"
    by blast
  have len: "length (x_arr d) = num_points p" "length (y1_arr d) = num_points p"
    using generate_lengths[OF g] by auto
  then have ne: "y1_arr d \<noteq> []" and eq: "length (x_arr d) = length (y1_arr d)"
    using z(2) by auto
  from render_scatter[OF assms(1) ne eq] r obtain k where
    "k < length (y1_arr d)" "y1_arr d ! k = Max (set (y1_arr d))"
    "artists (fig_axes fig) =
             [PathCollection (x_arr d) (y1_arr d)
                [(''c'', PArr (y2_arr d)), (''cmap'', PStr ''viridis''), (''s'', PInt 100),
                 (''alpha'', PNum 0.7), (''label'', PStr ''Data Points'')]]"
    "fig_colorbar fig =
             Some (PathCollection (x_arr d) (y1_arr d)
                [(''c'', PArr (y2_arr d)), (''cmap'', PStr ''viridis''), (''s'', PInt 100),
                 (''alpha'', PNum 0.7), (''label'', PStr ''Data Points'')], ''Cosine Values'')"
    "annotations (fig_axes fig) =
             (if show_annotations p
              then [\<lparr>ann_text = ''Peak Value'',
                     ann_xy = (x_arr d ! k, y1_arr d ! k),
                     ann_xytext = (x_arr d ! k + 1, y1_arr d ! k + 0.5),
                     ann_arrowprops = [(''facecolor'', PStr ''black''), (''shrink'', PNum 0.05)]\<rparr>]
              else [])"
    by auto
  with run len show ?thesis
    by (intro exI[of _ "\<lparr>page_data = d, page_figure = fig, page_summary = s\<rparr>"] exI[of _ k])
       simp
qed

theorem scatter_plot_figure_witness:
  "graph_type (default_params\<lparr>graph_type := ''Scatter Plot''\<rparr>) = ''Scatter Plot'' \<and>
   slider_ranges (default_params\<lparr>graph_type := ''Scatter Plot''\<rparr>) \<and>
   (\<exists>r k. run_script (default_params\<lparr>graph_type := ''Scatter Plot''\<rparr>) seed0 = Inr r \<and>
      k < 100 \<and> y1_arr (page_data r) ! k = Max (set (y1_arr (page_data r))) \<and>
      artists (fig_axes (page_figure r)) =
        [PathCollection (x_arr (page_data r)) (y1_arr (page_data r))
           [(''c'', PArr (y2_arr (page_data r))), (''cmap'', PStr ''viridis''),
            (''s'', PInt 100), (''alpha'', PNum 0.7), (''label'', PStr ''Data Points'')]] \<and>
      fig_colorbar (page_figure r) =
        Some (PathCollection (x_arr (page_data r)) (y1_arr (page_data r))
           [(''c'', PArr (y2_arr (page_data r))), (''cmap'', PStr ''viridis''),
            (''s'', PInt 100), (''alpha'', PNum 0.7), (''label'', PStr ''Data Points'')],
           ''Cosine Values'') \<and>
      annotations (fig_axes (page_figure r)) =
        [\<lparr>ann_text = ''Peak Value'',
          ann_xy = (x_arr (page_data r) ! k, y1_arr (page_data r) ! k),
          ann_xytext = (x_arr (page_data r) ! k + 1, y1_arr (page_data r) ! k + 0.5),
          ann_arrowprops = [(''facecolor'', PStr ''black''), (''shrink'', PNum 0.05)]\<rparr>])"
proof -
  let ?p = "default_params\<lparr>graph_type := ''Scatter Plot''\<rparr>"
  have h: "graph_type ?p = ''Scatter Plot''" "slider_ranges ?p"
    by (simp_all add: slider_ranges_def default_params_def)
  have n: "num_points ?p = 100" "show_annotations ?p" by (simp_all add: default_params_def)
  from scatter_plot_figure[OF h, of seed0] h show ?thesis
    by (simp only: n if_True simp_thms)
qed

text \<open>
  Claim C8. The title, the tick formatter and the legend are as the claim says for every
  chart (lemma \<open>render_decoration\<close>, with \<open>tick_label_example\<close> for the format). The grid
  is not: line 76 passes \<open>show_grid\<close> together with the line properties \<open>linestyle\<close> and
  \<open>alpha\<close>, and with line properties present matplotlib switches the grid on whatever
  the first argument is. The run below has \<open>show_grid = False\<close> and every other control
  at its default; its axes have the dashed grid switched on.
\<close>

theorem grid_drawn_with_show_grid_off:
  "\<not> show_grid (default_params\<lparr>show_grid := False\<rparr>) \<and>
   (\<exists>r. run_script (default_params\<lparr>show_grid := False\<rparr>) seed0 = Inr r \<and>
      grid_on (fig_axes (page_figure r)) \<and>
      grid_props (fig_axes (page_figure r)) = [(''linestyle'', PStr ''--''), (''alpha'', PNum 0.6)])"
proof -
  let ?p = "default_params\<lparr>show_grid := False\<rparr>"
  have z: "0 \<le> noise_level ?p" "0 < num_points ?p"
    by (simp_all add: default_params_def)
  from run_script_ok[OF z, of seed0] obtain d st' fig s where
    r: "render ?p d = Inr fig" and
    run: "run_script ?p seed0 = Inr \<lparr>page_data = d, page_figure = fig, page_summary = s\<rparr>"
    by blast
  from render_decoration(4,5)[OF r] run show ?thesis by simp
qed

text \<open>
  Claim C9. Two runs that differ only in the integers the random generator hands to
  \<open>np.random.choice\<close>, and so only in the values of \<open>categories\<close>, end the same way:
  either both stop with the same error, or both complete with the same figure and the
  same summary panel.
\<close>

theorem categories_are_dead:
  "map_sum id (\<lambda>r. (page_figure r, page_summary r)) (run_script p (st\<lparr>ints := c\<rparr>))
   = map_sum id (\<lambda>r. (page_figure r, page_summary r)) (run_script p st)"
proof (cases "generate p st")
  case (Inl e)
  then have "noise_level p < 0" by (auto simp: generate_eq split: if_splits)
  then show ?thesis by (simp add: run_script_def generate_fail)
next
  case (Inr ds)
  obtain d st' where g: "generate p st = Inr (d, st')" using Inr by (cases ds) auto
  from generate_other_ints[OF g, of c] obtain cs st'' where
    g': "generate p (st\<lparr>ints := c\<rparr>) = Inr (d\<lparr>categories := cs\<rparr>, st'')" by blast
  show ?thesis
    by (simp add: run_script_def g g' render_categories data_summary_graph_free
        split: sum.splits)
qed

text \<open>
  Claim C10. With \<open>graph_type = Bar Chart\<close> and any setting the sliders allow, each of
  the two bar series has \<open>ceil(num_points / 10)\<close> bars. For \<open>num_points = 95\<close> that is
  10 bars, while \<open>95 div 10\<close> is 9.
\<close>

theorem bar_count_is_ceiling:
  assumes "graph_type p = ''Bar Chart''" "slider_ranges p"
  shows "\<exists>r b1 b2. run_script p st = Inr r \<and>
           artists (fig_axes (page_figure r)) = [b1, b2] \<and>
           length (bar_positions b1) = nat \<lceil>real (num_points p) / 10\<rceil> \<and>
           length (bar_positions b2) = nat \<lceil>real (num_points p) / 10\<rceil>"
proof -
  from assms have z: "0 \<le> noise_level p" "0 < num_points p"
    by (simp_all add: slider_ranges_def)
  from run_script_bar[OF assms(1) z, of st] obtain r where
    run: "run_script p st = Inr r" and len: "length (x_arr (page_data r)) = num_points p" and
    art: "artists (fig_axes (page_figure r)) =
             [BarContainer (slice_step (x_arr (page_data r)) 10)
                (slice_step (y1_arr (page_data r)) 10)
                [(''width'', PNum 0.5), (''alpha'', PNum 0.7), (''label'', PStr ''Sine Values'')],
              BarContainer (arr_add_scalar (slice_step (x_arr (page_data r)) 10) 0.5)
                (slice_step (y2_arr (page_data r)) 10)
                [(''width'', PNum 0.5), (''alpha'', PNum 0.7), (''label'', PStr ''Cosine Values'')]]"
    by auto
  show ?thesis
    apply (rule exI[of _ r])
    apply (rule exI, rule exI)
    apply (rule conjI, rule run)
    apply (rule conjI, rule art)
    apply (simp add: arr_add_scalar_def length_slice_step len ceiling_tenth)
    done
qed

theorem bar_count_is_ceiling_witness:
  "graph_type (default_params\<lparr>graph_type := ''Bar Chart'', num_points := 95\<rparr>) = ''Bar Chart'' \<and>
   slider_ranges (default_params\<lparr>graph_type := ''Bar Chart'', num_points := 95\<rparr>) \<and>
   (\<exists>r b1 b2.
      run_script (default_params\<lparr>graph_type := ''Bar Chart'', num_points := 95\<rparr>) seed0 = Inr r \<and>
      artists (fig_axes (page_figure r)) = [b1, b2] \<and>
      length (bar_positions b1) = 10 \<and> length (bar_positions b2) = 10) \<and>
   (95::nat) div 10 = 9"
proof -
  let ?p = "default_params\<lparr>graph_type := ''Bar Chart'', num_points := 95\<rparr>"
  have h: "graph_type ?p = ''Bar Chart''" "slider_ranges ?p"
    by (simp_all add: slider_ranges_def default_params_def)
  have c: "nat \<lceil>real (num_points ?p) / 10\<rceil> = 10" by simp
  from bar_count_is_ceiling[OF h, of seed0] h show ?thesis
    by (simp only: c simp_thms)
qed

end
